theory Spec2Isabelle
  imports Complex_Main
begin

section \<open>Entropy of event logs: the module \<open>entropies.py\<close>\<close>

text \<open>
  The module computes a base-10 Shannon entropy over the activity labels of an event log.
  It is written against pandas (the log is a \<open>DataFrame\<close>), \<open>collections.Counter\<close> and
  \<open>scipy.stats.entropy\<close>. The Python functions are embedded one by one, under their own
  names; what Python raises is a value \<open>Inl e\<close> of the result type.

  Conventions of the embedding:
  \<^item> the entropy, a Python \<open>float\<close>, is a \<open>real\<close>: the rounding of its arithmetic is not
    modelled;
  \<^item> a \<open>dict\<close> (and a \<open>Counter\<close>) is an association list in insertion order. Its keys are
    Python objects, and two keys are the same key when Python finds one with the other:
    equal values, or the very same object;
  \<^item> a \<open>DataFrame\<close> is its row labels (the index) and its columns, each column a label
    with a dtype and the values of its cells, top to bottom. In a table every column has one
    cell per row label, and cell \<open>k\<close> of a column is read only for \<open>k\<close> below the number of
    rows;
  \<^item> the functions are pure: where the Python changes a table in place, the model returns
    the changed table.
\<close>

subsection \<open>Values, errors and tables\<close>

text \<open>
  The Python objects that a row hands to the loop, and that an \<open>object\<close> column holds: a
  string, a number (an \<open>int\<close> or a \<open>float\<close>: Python compares and hashes the two by value,
  so \<open>1\<close> and \<open>1.0\<close> are one key), an infinity, \<open>None\<close>, a time stamp, the missing marker
  \<open>NaT\<close>, and the float \<open>nan\<close>. A \<open>nan\<close> is equal to nothing, itself included, so a
  dictionary finds a \<open>nan\<close> key only by the identity of the object: a \<open>nan\<close> carries the
  identity of its object, either one stored in an \<open>object\<close> column or one made when a cell
  of a float column is read (\<open>Boxed\<close>, with the row and the column label it was read at).
\<close>

datatype obj_id = Stored nat | Boxed nat string

datatype cell =
    Raw string
  | Number real
  | Infinite bool
  | NaNObject obj_id
  | PyNone
  | Datetime int
  | NaT

text \<open>
  The columns, by dtype: \<open>object\<close> (any Python objects), \<open>int64\<close>, \<open>float64\<close> (a finite
  value, an infinity or \<open>nan\<close>) and \<open>datetime64\<close> (an instant, or missing). Other dtypes are
  not modelled.
\<close>

datatype float64 = Finite real | Infinity bool | NaN

datatype column =
    ObjectColumn "cell list"
  | Int64Column "int list"
  | Float64Column "float64 list"
  | Datetime64Column "int option list"

datatype py_error =
    KeyError string
  | ZeroDivisionError
  | ValueError string
  | CollaboratorError string

record dataframe =
  index :: "int list"
  data :: "(string \<times> column) list"

definition columns :: "dataframe \<Rightarrow> string list" where
  "columns df = map fst (data df)"

subsection \<open>\<open>DataFrame.iterrows\<close>\<close>

text \<open>
  \<open>iterrows\<close> is pandas code. It takes \<open>df.values\<close>, one array for the whole table in the
  common dtype of the columns, and makes a \<open>Series\<close> of each of its rows. The common dtype is
  \<open>int64\<close> when every column is \<open>int64\<close>, \<open>float64\<close> when every column is \<open>int64\<close> or
  \<open>float64\<close>, \<open>datetime64\<close> when every column is \<open>datetime64\<close>, and \<open>object\<close> otherwise.
\<close>

datatype dtype = Object | Int64 | Float64 | Datetime64

fun dtype_of :: "column \<Rightarrow> dtype" where
  "dtype_of (ObjectColumn cs) = Object"
| "dtype_of (Int64Column ns) = Int64"
| "dtype_of (Float64Column xs) = Float64"
| "dtype_of (Datetime64Column ts) = Datetime64"

definition values_dtype :: "dataframe \<Rightarrow> dtype" where
  "values_dtype df =
     (let dtypes = map (\<lambda>(label, col). dtype_of col) (data df)
      in if list_all (\<lambda>d. d = Int64) dtypes then Int64
         else if list_all (\<lambda>d. d = Int64 \<or> d = Float64) dtypes then Float64
         else if list_all (\<lambda>d. d = Datetime64) dtypes then Datetime64
         else Object)"

text \<open>
  An \<open>int64\<close> taken into a \<open>float64\<close> array is rounded to the nearest value with a 53 bit
  significand, a tie going to the even one: \<open>excess_bits a\<close> is the number of low bits of
  \<open>a\<close> that do not fit, \<open>q\<close> the bits that do and \<open>r\<close> the rest.
\<close>

function excess_bits :: "int \<Rightarrow> nat" where
  "excess_bits a = (if a < 2 ^ 53 then 0 else Suc (excess_bits (a div 2)))"
  by pat_completeness auto
termination
  by (relation "measure nat") auto

declare excess_bits.simps [simp del]

definition float64_of_int :: "int \<Rightarrow> real" where
  "float64_of_int n =
     (let a = \<bar>n\<bar>;
          s = excess_bits a;
          q = a div 2 ^ s;
          r = a mod 2 ^ s;
          q' = (if 2 ^ s < 2 * r \<or> (2 * r = 2 ^ s \<and> odd q) then q + 1 else q)
      in real_of_int (sgn n * (q' * 2 ^ s)))"

text \<open>
  The object that the row \<open>k\<close> yields for a cell, given the common dtype. A cell of an
  \<open>object\<close> column is the stored object itself. An \<open>int64\<close> cell keeps its value, unless the
  common dtype is \<open>float64\<close>, where it is rounded. A \<open>float64\<close> cell is read as a new object,
  so that every \<open>nan\<close> read is an object of its own.
\<close>

fun box :: "dtype \<Rightarrow> nat \<Rightarrow> string \<Rightarrow> column \<Rightarrow> cell" where
  "box d k label (ObjectColumn cs) = cs ! k"
| "box d k label (Int64Column ns) =
     Number (if d = Float64 then float64_of_int (ns ! k) else real_of_int (ns ! k))"
| "box d k label (Float64Column xs) =
     (case xs ! k of
        Finite x \<Rightarrow> Number x
      | Infinity b \<Rightarrow> Infinite b
      | NaN \<Rightarrow> NaNObject (Boxed k label))"
| "box d k label (Datetime64Column ts) =
     (case ts ! k of Some t \<Rightarrow> Datetime t | None \<Rightarrow> NaT)"

text \<open>
  \<open>iterrows\<close> yields, top to bottom, the pairs of a row label and the row as a \<open>Series\<close>:
  the objects of that row, labelled by the column names.
\<close>

type_synonym series = "(string \<times> cell) list"

definition row_at :: "dataframe \<Rightarrow> nat \<Rightarrow> series" where
  "row_at df k = map (\<lambda>(label, col). (label, box (values_dtype df) k label col)) (data df)"

definition iterrows :: "dataframe \<Rightarrow> (int \<times> series) list" where
  "iterrows df = map (\<lambda>k. (index df ! k, row_at df k)) [0..<length (index df)]"

text \<open>
  \<open>row[name]\<close> on a \<open>Series\<close>: a label that is absent raises \<open>KeyError\<close>. The column labels of
  a table are taken to be pairwise distinct where that matters (a repeated label makes
  \<open>row[name]\<close> a \<open>Series\<close> of its own, not a cell); the theorems that need it say so.
\<close>

definition series_getitem :: "series \<Rightarrow> string \<Rightarrow> py_error + cell" where
  "series_getitem row name =
     (case map_of row name of None \<Rightarrow> Inl (KeyError name) | Some v \<Rightarrow> Inr v)"

subsection \<open>Dictionaries in insertion order\<close>

type_synonym ('k, 'v) dict = "('k \<times> 'v) list"

definition dict_contains :: "('k, 'v) dict \<Rightarrow> 'k \<Rightarrow> bool" where
  "dict_contains d k = (map_of d k \<noteq> None)"

text \<open>\<open>d[k] = v\<close>: a key already present keeps its place, a new key goes last.\<close>

fun dict_setitem :: "('k, 'v) dict \<Rightarrow> 'k \<Rightarrow> 'v \<Rightarrow> ('k, 'v) dict" where
  "dict_setitem [] k v = [(k, v)]"
| "dict_setitem ((k', v') # d) k v =
     (if k' = k then (k, v) # d else (k', v') # dict_setitem d k v)"

text \<open>\<open>d[k].append(x)\<close> for a key that is present: the list stored under \<open>k\<close> grows in place.\<close>

fun dict_append :: "('k, 'v list) dict \<Rightarrow> 'k \<Rightarrow> 'v \<Rightarrow> ('k, 'v list) dict" where
  "dict_append [] k x = []"
| "dict_append ((k', xs) # d) k x =
     (if k' = k then (k', xs @ [x]) # d else (k', xs) # dict_append d k x)"

definition dict_get :: "('k, 'v) dict \<Rightarrow> 'k \<Rightarrow> 'v \<Rightarrow> 'v" where
  "dict_get d k dflt = (case map_of d k of None \<Rightarrow> dflt | Some v \<Rightarrow> v)"

definition dict_values :: "('k, 'v) dict \<Rightarrow> 'v list" where
  "dict_values d = map snd d"


text \<open>
  \<open>Counter(iterable)\<close> counts the elements one by one:
  \<open>mapping[elem] = mapping.get(elem, 0) + 1\<close>.
\<close>

definition Counter :: "'a list \<Rightarrow> ('a, nat) dict" where
  "Counter elems = foldl (\<lambda>mapping elem. dict_setitem mapping elem (dict_get mapping elem 0 + 1)) [] elems"

subsection \<open>\<open>compute_entropy\<close>\<close>

text \<open>
  \<open>scipy.stats.entropy(pk, base)\<close> is library code: it normalises \<open>pk\<close> to sum 1, sums
  \<open>entr\<close> over it and divides by the logarithm of the base, where \<open>entr x\<close> is
  \<open>- x * log x\<close> for a positive \<open>x\<close> and 0 at 0. (For a negative \<open>x\<close> the library gives minus
  infinity; the counts that reach it here are never negative.) On the empty vector all
  three steps run over no element.
\<close>

definition entr :: "real \<Rightarrow> real" where
  "entr x = (if 0 < x then - x * ln x else 0)"

definition et :: "real list \<Rightarrow> real \<Rightarrow> real" where
  "et pk base =
     (let pk' = map (\<lambda>p. 1 * p / sum_list pk) pk;
          vec = map entr pk'
      in sum_list vec / ln base)"

text \<open>\<open>count / total\<close> on two Python integers: true division, raising on a zero divisor.\<close>

definition truediv :: "nat \<Rightarrow> nat \<Rightarrow> py_error + real" where
  "truediv count total' =
     (if total' = 0 then Inl ZeroDivisionError else Inr (real count / real total'))"

text \<open>A list comprehension whose element expression may raise: the first error ends it.\<close>

fun comprehension :: "('a \<Rightarrow> py_error + 'b) \<Rightarrow> 'a list \<Rightarrow> py_error + 'b list" where
  "comprehension f [] = Inr []"
| "comprehension f (x # xs) =
     (case f x of
        Inl e \<Rightarrow> Inl e
      | Inr y \<Rightarrow> (case comprehension f xs of Inl e \<Rightarrow> Inl e | Inr ys \<Rightarrow> Inr (y # ys)))"

definition compute_entropy :: "'a list list \<Rightarrow> py_error + real" where
  "compute_entropy sequences =
     (let all_symbols = concat sequences;
          total' = length all_symbols;
          freq = Counter all_symbols
      in case comprehension (\<lambda>count. truediv count total') (dict_values freq) of
           Inl e \<Rightarrow> Inl e
         | Inr prob \<Rightarrow> Inr (et prob 10))"

subsection \<open>\<open>get_all_prefixes\<close>\<close>

text \<open>
  The two nested loops, each appending to \<open>all_prefixes\<close>; \<open>seq[:i]\<close> is \<open>take i seq\<close> and
  \<open>range(1, len(seq) + 1)\<close> is \<open>[1..<length seq + 1]\<close>.
\<close>

definition get_all_prefixes :: "'a list list \<Rightarrow> 'a list list" where
  "get_all_prefixes sequences =
     foldl (\<lambda>all_prefixes seq.
              foldl (\<lambda>all_prefixes i. all_prefixes @ [take i seq]) all_prefixes
                [1..<length seq + 1])
       [] sequences"

subsection \<open>\<open>cf_entropy_seq\<close>\<close>

text \<open>
  The loop over the rows (lines 45 to 51 of the module), with the dictionary \<open>cases\<close> as
  its state. The case identifier is looked up before the activity.
\<close>

fun build_cases ::
  "(int \<times> series) list \<Rightarrow> string \<Rightarrow> string \<Rightarrow> (cell, cell list) dict
     \<Rightarrow> py_error + (cell, cell list) dict" where
  "build_cases [] activity_name case_id_name cases = Inr cases"
| "build_cases ((idx, row) # rest) activity_name case_id_name cases =
     (case series_getitem row case_id_name of
        Inl e \<Rightarrow> Inl e
      | Inr case_id \<Rightarrow>
          (case series_getitem row activity_name of
             Inl e \<Rightarrow> Inl e
           | Inr activity \<Rightarrow>
               (let cases1 = (if \<not> dict_contains cases case_id
                              then dict_setitem cases case_id [] else cases)
                in build_cases rest activity_name case_id_name
                     (dict_append cases1 case_id activity))))"

text \<open>The function returns a number, or a pair when \<open>return_sequence_count\<close> is set.\<close>

datatype cf_result = Entropy real | EntropyWithCount real nat

definition cf_entropy_seq ::
  "dataframe \<Rightarrow> bool \<Rightarrow> string \<Rightarrow> string \<Rightarrow> bool \<Rightarrow> py_error + cf_result" where
  "cf_entropy_seq log' prefix activity_name case_id_name return_sequence_count =
     (case build_cases (iterrows log') activity_name case_id_name [] of
        Inl e \<Rightarrow> Inl e
      | Inr cases \<Rightarrow>
          (let sequences = (if prefix then get_all_prefixes (dict_values cases)
                            else dict_values cases)
           in case compute_entropy sequences of
                Inl e \<Rightarrow> Inl e
              | Inr entropy_value \<Rightarrow>
                  (if return_sequence_count
                   then Inr (EntropyWithCount entropy_value (length sequences))
                   else Inr (Entropy entropy_value))))"

subsection \<open>\<open>convert_and_clean\<close>\<close>

text \<open>
  \<open>pd.to_datetime(series, errors='coerce')\<close> is pandas code, modelled as documented. A
  column that is \<open>datetime64\<close> already is returned as it is. For any other column the
  library first settles, from the column as a whole, how its values parse (the format that
  it infers), and at that step it can raise whatever the \<open>errors\<close> argument says (pandas 3
  does for a column whose values carry different UTC offsets). Then it parses value by
  value, and a value that does not parse, or that is missing, becomes \<open>NaT\<close> instead of an
  error. The library is a parameter: given the column it raises, or it gives the way each
  value parses.
\<close>

type_synonym parser = "column \<Rightarrow> py_error + (cell \<Rightarrow> int option)"

text \<open>The values of a column as objects, with \<open>None\<close> where the value is missing.\<close>

fun object_value :: "cell \<Rightarrow> cell option" where
  "object_value (NaNObject i) = None"
| "object_value PyNone = None"
| "object_value NaT = None"
| "object_value c = Some c"

fun float_value :: "float64 \<Rightarrow> cell option" where
  "float_value NaN = None"
| "float_value (Finite x) = Some (Number x)"
| "float_value (Infinity b) = Some (Infinite b)"

fun present :: "column \<Rightarrow> cell option list" where
  "present (ObjectColumn cs) = map object_value cs"
| "present (Int64Column ns) = map (\<lambda>n. Some (Number (real_of_int n))) ns"
| "present (Float64Column xs) = map float_value xs"
| "present (Datetime64Column ts) = map (map_option Datetime) ts"

fun coerce :: "(cell \<Rightarrow> int option) \<Rightarrow> cell option \<Rightarrow> int option" where
  "coerce parse None = None"
| "coerce parse (Some (Datetime t)) = Some t"
| "coerce parse (Some c) = parse c"

definition to_datetime :: "parser \<Rightarrow> column \<Rightarrow> py_error + column" where
  "to_datetime parser col =
     (case col of
        Datetime64Column ts \<Rightarrow> Inr col
      | _ \<Rightarrow>
          (case parser col of
             Inl e \<Rightarrow> Inl e
           | Inr parse \<Rightarrow> Inr (Datetime64Column (map (coerce parse) (present col)))))"

text \<open>
  \<open>df[col] = pd.to_datetime(df[col], errors='coerce')\<close>. When the label is repeated,
  \<open>df[col]\<close> is a table and not a column, and \<open>to_datetime\<close> raises \<open>ValueError\<close> on it; when
  the table has no such label, \<open>df[col]\<close> raises \<open>KeyError\<close>.
\<close>

definition parse_column :: "parser \<Rightarrow> dataframe \<Rightarrow> string \<Rightarrow> py_error + dataframe" where
  "parse_column parser df col =
     (if 1 < count_list (columns df) col
      then Inl (ValueError ''cannot assemble with duplicate keys'')
      else (case map_of (data df) col of
              None \<Rightarrow> Inl (KeyError col)
            | Some series \<Rightarrow>
                (case to_datetime parser series of
                   Inl e \<Rightarrow> Inl e
                 | Inr parsed \<Rightarrow>
                     Inr (df\<lparr>data := map (\<lambda>(label, c).
                                            if label = col then (label, parsed) else (label, c))
                                        (data df)\<rparr>))))"

text \<open>The loop \<open>for col in ['start:timestamp', 'time:timestamp']\<close> with its guard.\<close>

fun parse_timestamps :: "parser \<Rightarrow> string list \<Rightarrow> dataframe \<Rightarrow> py_error + dataframe" where
  "parse_timestamps parser [] df = Inr df"
| "parse_timestamps parser (col # cols) df =
     (if col \<in> set (columns df)
      then (case parse_column parser df col of
              Inl e \<Rightarrow> Inl e
            | Inr df' \<Rightarrow> parse_timestamps parser cols df')
      else parse_timestamps parser cols df)"

text \<open>
  \<open>df.rename(columns=mapper, inplace=True, errors='ignore')\<close>: every label that the mapper
  knows is replaced, and a label of the mapper that the table does not have is ignored.
\<close>

definition rename :: "(string \<times> string) list \<Rightarrow> dataframe \<Rightarrow> dataframe" where
  "rename mapper df =
     df\<lparr>data := map (\<lambda>(label, c).
                        (case map_of mapper label of None \<Rightarrow> label | Some new \<Rightarrow> new, c))
                    (data df)\<rparr>"

text \<open>\<open>df.reset_index(inplace=True, drop=True)\<close>: the rows are labelled 0, 1, 2, ... anew.\<close>

definition reset_index :: "dataframe \<Rightarrow> dataframe" where
  "reset_index df = df\<lparr>index := map int [0..<length (index df)]\<rparr>"

text \<open>
  \<open>convert_log\<close> comes from the module \<open>src.eventlog_utils\<close>, which is not among the sources:
  it is a parameter of the function, and it may raise.
\<close>

definition convert_and_clean ::
  "(dataframe \<Rightarrow> py_error + dataframe) \<Rightarrow> parser \<Rightarrow> dataframe \<Rightarrow> py_error + dataframe" where
  "convert_and_clean convert_log parser df =
     (case (if ''lifecycle:transition'' \<in> set (columns df)
            then (case convert_log df of
                    Inl e \<Rightarrow> Inl e
                  | Inr df1 \<Rightarrow>
                      Inr (rename [(''START'', ''start:timestamp''), (''END'', ''time:timestamp'')]
                             df1))
            else Inr df) of
        Inl e \<Rightarrow> Inl e
      | Inr df2 \<Rightarrow>
          (case parse_timestamps parser [''start:timestamp'', ''time:timestamp''] df2 of
             Inl e \<Rightarrow> Inl e
           | Inr df3 \<Rightarrow> Inr (reset_index df3)))"

text \<open>
  A column is parsed when each of its values is a date-time or the missing marker; a label
  is parsed in a table when every column under that label is.
\<close>

fun parsed_cell :: "cell \<Rightarrow> bool" where
  "parsed_cell (Datetime t) = True"
| "parsed_cell NaT = True"
| "parsed_cell c = False"

fun parsed :: "column \<Rightarrow> bool" where
  "parsed (Datetime64Column ts) = True"
| "parsed (ObjectColumn cs) = list_all parsed_cell cs"
| "parsed (Int64Column ns) = False"
| "parsed (Float64Column xs) = False"





subsection \<open>Reading a table column by column\<close>



subsection \<open>The case sequences as the specification describes them\<close>

text \<open>
  The distinct elements of a list, in the order in which each is seen first.
\<close>

fun first_seen :: "'a list \<Rightarrow> 'a list" where
  "first_seen [] = []"
| "first_seen (x # xs) = x # removeAll x (first_seen xs)"


subsection \<open>Example logs\<close>

definition empty_log :: dataframe where
  "empty_log =
     \<lparr>index = [],
      data = [(''case:concept:name'', ObjectColumn []), (''concept:name'', ObjectColumn [])]\<rparr>"

definition empty_log_without_activity :: dataframe where
  "empty_log_without_activity = \<lparr>index = [], data = [(''case:concept:name'', ObjectColumn [])]\<rparr>"

definition two_case_log :: dataframe where
  "two_case_log =
     \<lparr>index = [0, 1, 2, 3, 4, 5],
      data = [(''case:concept:name'',
                 ObjectColumn [Raw ''A'', Raw ''B'', Raw ''A'', Raw ''B'', Raw ''A'', Raw ''B'']),
              (''concept:name'',
                 ObjectColumn [Raw ''x'', Raw ''y'', Raw ''x'', Raw ''y'', Raw ''x'', Raw ''y''])]\<rparr>"











section \<open>Properties\<close>

subsection \<open>Prefixes\<close>

lemma inner_prefix_loop:
  "foldl (\<lambda>all_prefixes i. all_prefixes @ [take i seq]) acc is = acc @ map (\<lambda>i. take i seq) is"
  by (induction "is" arbitrary: acc) simp_all

lemma outer_prefix_loop:
  "foldl (\<lambda>all_prefixes seq.
            foldl (\<lambda>all_prefixes i. all_prefixes @ [take i seq]) all_prefixes
              [1..<length seq + 1]) acc seqs
   = acc @ concat (map (\<lambda>seq. map (\<lambda>i. take i seq) [1..<length seq + 1]) seqs)"
  by (induction seqs arbitrary: acc) (simp_all add: inner_prefix_loop del: upt_Suc)

lemma get_all_prefixes_concat:
  "get_all_prefixes seqs = concat (map (\<lambda>seq. map (\<lambda>i. take i seq) [1..<length seq + 1]) seqs)"
  unfolding get_all_prefixes_def by (simp only: outer_prefix_loop append_Nil)

lemma length_get_all_prefixes:
  "length (get_all_prefixes seqs) = sum_list (map length seqs)"
  unfolding get_all_prefixes_concat by (induction seqs) (simp_all del: upt_Suc)

text \<open>
  C5. For sequences of lengths \<open>L1..Ln\<close>, \<open>get_all_prefixes\<close> returns exactly the sum of the
  \<open>Li\<close> sequences, and the result is, source sequence after source sequence in the order of
  the input, the prefixes of that sequence of length 1, 2, ... up to its full length.
\<close>

theorem get_all_prefixes_count_and_order:
  "length (get_all_prefixes seqs) = sum_list (map length seqs) \<and>
   get_all_prefixes seqs =
     concat (map (\<lambda>seq. map (\<lambda>i. take i seq) [1..<length seq + 1]) seqs)"
  using length_get_all_prefixes get_all_prefixes_concat by blast

subsection \<open>Rows and lookups\<close>

lemma iterrows_no_rows: "index df = [] \<Longrightarrow> iterrows df = []"
  by (simp add: iterrows_def)

lemma iterrows_first_row:
  "index df \<noteq> [] \<Longrightarrow>
   iterrows df = (index df ! 0, row_at df 0) # map (\<lambda>k. (index df ! k, row_at df k)) [1..<length (index df)]"
  by (simp add: iterrows_def upt_conv_Cons del: upt_Suc)

lemma map_of_labelled:
  "map_of (map (\<lambda>(label, col). (label, f label col)) d) name = map_option (f name) (map_of d name)"
  by (induction d) auto

lemma map_of_row_at:
  "map_of (row_at df k) name = map_option (box (values_dtype df) k name) (map_of (data df) name)"
  unfolding row_at_def by (rule map_of_labelled)

lemma series_getitem_absent:
  "name \<notin> set (columns df) \<Longrightarrow> series_getitem (row_at df k) name = Inl (KeyError name)"
  by (simp add: series_getitem_def map_of_row_at columns_def map_of_eq_None_iff [symmetric])

lemma column_found:
  assumes "name \<in> set (columns df)"
  obtains col where "map_of (data df) name = Some col"
  using assms by (metis columns_def map_of_eq_None_iff not_Some_eq set_map)

lemma series_getitem_present:
  assumes "name \<in> set (columns df)"
  shows "series_getitem (row_at df k) name
         = Inr (box (values_dtype df) k name (the (map_of (data df) name)))"
proof -
  from assms obtain col where "map_of (data df) name = Some col"
    by (rule column_found)
  then show ?thesis
    by (simp add: series_getitem_def map_of_row_at)
qed




subsection \<open>First occurrences and tabulated dictionaries\<close>

lemma set_first_seen [simp]: "set (first_seen xs) = set xs"
  by (induction xs) auto

lemma distinct_first_seen [simp]: "distinct (first_seen xs)"
  by (induction xs) (auto simp: distinct_removeAll)

lemma first_seen_snoc:
  "first_seen (xs @ [x]) = (if x \<in> set xs then first_seen xs else first_seen xs @ [x])"
  by (induction xs) auto

lemma length_first_seen: "length (first_seen xs) = card (set xs)"
  by (metis distinct_card distinct_first_seen set_first_seen)

lemma sum_count_first_seen: "sum_list (map (count_list xs) (first_seen xs)) = length xs"
proof -
  have "sum_list (map (count_list xs) (first_seen xs)) = sum (count_list xs) (set xs)"
    by (simp add: sum_list_distinct_conv_sum_set)
  then show ?thesis
    by (simp add: sum_count_set)
qed

lemma dict_setitem_tabulated:
  "distinct keys \<Longrightarrow>
   dict_setitem (map (\<lambda>k. (k, g k)) keys) x v =
     (if x \<in> set keys then map (\<lambda>k. (k, if k = x then v else g k)) keys
      else map (\<lambda>k. (k, g k)) keys @ [(x, v)])"
  by (induction keys) auto



lemma dict_get_tabulated:
  "dict_get (map (\<lambda>k. (k, g k)) keys) x dflt = (if x \<in> set keys then g x else dflt)"
  by (induction keys) (auto simp: dict_get_def)



subsection \<open>The counter\<close>

lemma Counter_Nil: "Counter [] = []"
  by (simp add: Counter_def)

lemma Counter_snoc:
  "Counter (xs @ [x]) = dict_setitem (Counter xs) x (dict_get (Counter xs) x 0 + 1)"
  by (simp add: Counter_def)

lemma Counter_tabulated:
  "Counter xs = map (\<lambda>x. (x, count_list xs x)) (first_seen xs)"
proof (induction xs rule: rev_induct)
  case Nil
  then show ?case by (simp add: Counter_def)
next
  case (snoc x xs)
  have get: "dict_get (Counter xs) x 0 = count_list xs x"
    by (simp add: snoc dict_get_tabulated count_list_0_iff)
  show ?case
    unfolding Counter_snoc get
    by (auto simp add: snoc dict_setitem_tabulated first_seen_snoc)
qed

subsection \<open>The entropy computation never divides by zero\<close>

lemma comprehension_truediv:
  "n \<noteq> 0 \<Longrightarrow> comprehension (\<lambda>count. truediv count n) cs = Inr (map (\<lambda>count. real count / real n) cs)"
  by (induction cs) (simp_all add: truediv_def)

lemma compute_entropy_no_symbols:
  assumes "concat sequences = []"
  shows "compute_entropy sequences = Inr (et [] 10)"
  unfolding compute_entropy_def Let_def assms
  by (simp add: Counter_Nil dict_values_def)

lemma compute_entropy_value:
  "compute_entropy sequences =
     Inr (et (map (\<lambda>count. real count / real (length (concat sequences)))
                (dict_values (Counter (concat sequences)))) 10)"
proof (cases "concat sequences = []")
  case True
  show ?thesis
    unfolding compute_entropy_no_symbols [OF True] True
    by (simp add: Counter_Nil dict_values_def)
next
  case False
  then have "length (concat sequences) \<noteq> 0" by simp
  then show ?thesis
    unfolding compute_entropy_def Let_def by (simp add: comprehension_truediv)
qed

lemma get_all_prefixes_Nil: "get_all_prefixes [] = []"
  by (simp add: get_all_prefixes_def)

subsection \<open>The loop over the rows\<close>

lemma build_cases_missing_column:
  assumes "index df \<noteq> []"
    and "case_id_name \<notin> set (columns df) \<or> activity_name \<notin> set (columns df)"
  shows "build_cases (iterrows df) activity_name case_id_name cases =
           Inl (KeyError (if case_id_name \<notin> set (columns df) then case_id_name
                          else activity_name))"
proof (cases "case_id_name \<in> set (columns df)")
  case False
  then show ?thesis
    using assms(1)
    by (simp add: iterrows_first_row series_getitem_absent del: upt_Suc)
next
  case True
  with assms(2) have "activity_name \<notin> set (columns df)" by simp
  with True show ?thesis
    using assms(1)
    by (simp add: iterrows_first_row series_getitem_absent
        series_getitem_present del: upt_Suc)
qed











subsection \<open>The value of the entropy\<close>

lemma counts_of_symbols:
  "dict_values (Counter xs) = map (count_list xs) (first_seen xs)"
  by (simp add: Counter_tabulated dict_values_def comp_def)

lemma et_uniform:
  assumes "0 < k"
  shows "et (replicate k (1 / real k)) 10 = log 10 (real k)"
proof -
  have s: "sum_list (replicate k (1 / real k)) = 1"
    using assms by (simp add: sum_list_replicate)
  have e: "entr (1 / real k) = ln (real k) / real k"
    using assms by (simp add: entr_def ln_div)
  have "et (replicate k (1 / real k)) 10 = sum_list (replicate k (entr (1 / real k))) / ln 10"
    unfolding et_def Let_def s by simp
  also have "\<dots> = ln (real k) / ln 10"
    unfolding e using assms by (simp add: sum_list_replicate)
  finally show ?thesis
    by (simp add: log_def)
qed

lemma entropy_of_uniform_counts:
  assumes "xs \<noteq> []"
    and "\<forall>a\<in>set xs. count_list xs a = n"
  shows "et (map (\<lambda>count. real count / real (length xs)) (dict_values (Counter xs))) 10
         = log 10 (real (card (set xs)))"
proof -
  let ?k = "card (set xs)"
  have counts: "map (count_list xs) (first_seen xs) = replicate ?k n"
  proof -
    have "map (count_list xs) (first_seen xs) = map (\<lambda>a. n) (first_seen xs)"
      using assms(2) by (intro map_cong) simp_all
    then show ?thesis
      by (simp add: map_replicate_const length_first_seen)
  qed
  have k: "0 < ?k"
    using assms(1) by (simp add: card_gt_0_iff)
  have len: "length xs = ?k * n"
    using sum_count_first_seen [of xs] unfolding counts by (simp add: sum_list_replicate)
  have n: "0 < n"
    using assms(1) len by (cases n) simp_all
  have "map (\<lambda>count. real count / real (length xs)) (dict_values (Counter xs))
        = replicate ?k (real n / real (?k * n))"
    unfolding counts_of_symbols counts len by simp
  also have "real n / real (?k * n) = 1 / real ?k"
    using n by simp
  finally show ?thesis
    by (simp only: et_uniform [OF k])
qed

lemma entropy_of_single_symbol:
  assumes "set xs = {a}"
  shows "et (map (\<lambda>count. real count / real (length xs)) (dict_values (Counter xs))) 10 = 0"
proof -
  from assms have "xs \<noteq> []" by auto
  moreover from assms have "\<forall>b\<in>set xs. count_list xs b = count_list xs a" by simp
  ultimately show ?thesis
    using entropy_of_uniform_counts [of xs "count_list xs a"] by (simp add: assms)
qed

text \<open>
  No population with \<open>k\<close> distinct symbols has a larger entropy than \<open>log10 k\<close>: for each
  probability \<open>p\<close>, \<open>ln (1 / (k p)) \<le> 1 / (k p) - 1\<close>, and the right-hand sides, weighted by
  \<open>p\<close>, sum to 0.
\<close>

lemma entr_gibbs:
  assumes "0 < p" and "0 < k"
  shows "entr p \<le> p * ln (real k) + (1 / real k - p)"
proof -
  have pos: "0 < 1 / (real k * p)"
    using assms by simp
  have "ln (1 / (real k * p)) \<le> 1 / (real k * p) - 1"
    by (rule ln_le_minus_one [OF pos])
  then have "p * ln (1 / (real k * p)) \<le> p * (1 / (real k * p) - 1)"
    using assms(1) by (simp add: mult_le_cancel_left_pos)
  moreover have "ln (1 / (real k * p)) = - ln (real k) - ln p"
    using assms by (simp add: ln_div ln_mult)
  moreover have "p * (1 / (real k * p) - 1) = 1 / real k - p"
    using assms by (simp add: field_simps)
  ultimately have "p * (- ln (real k) - ln p) \<le> 1 / real k - p"
    by simp
  then show ?thesis
    using assms(1) by (simp add: entr_def algebra_simps)
qed

lemma entropy_le_log_card:
  assumes "xs \<noteq> []"
  shows "et (map (\<lambda>count. real count / real (length xs)) (dict_values (Counter xs))) 10
         \<le> log 10 (real (card (set xs)))"
proof -
  let ?S = "set xs"
  let ?k = "card ?S"
  let ?N = "real (length xs)"
  let ?p = "\<lambda>a. real (count_list xs a) / ?N"
  have N: "0 < ?N" using assms by simp
  have k: "0 < ?k" using assms by (simp add: card_gt_0_iff)
  have probs: "map (\<lambda>count. real count / ?N) (dict_values (Counter xs)) = map ?p (first_seen xs)"
    by (simp add: counts_of_symbols comp_def)
  have total: "sum ?p ?S = 1"
  proof -
    have "sum ?p ?S = real (sum (count_list xs) ?S) / ?N"
      by (simp add: sum_divide_distrib)
    also have "\<dots> = 1"
      using N by (simp add: sum_count_set)
    finally show ?thesis .
  qed
  have sum_probs: "sum_list (map ?p (first_seen xs)) = 1"
    using total by (simp add: sum_list_distinct_conv_sum_set)
  have "et (map ?p (first_seen xs)) 10 = sum_list (map (\<lambda>a. entr (?p a)) (first_seen xs)) / ln 10"
    unfolding et_def Let_def sum_probs by (simp add: comp_def)
  also have "\<dots> = sum (\<lambda>a. entr (?p a)) ?S / ln 10"
    by (simp add: sum_list_distinct_conv_sum_set)
  finally have as_sum: "et (map ?p (first_seen xs)) 10 = sum (\<lambda>a. entr (?p a)) ?S / ln 10" .
  have "sum (\<lambda>a. entr (?p a)) ?S \<le> sum (\<lambda>a. ?p a * ln (real ?k) + (1 / real ?k - ?p a)) ?S"
  proof (rule sum_mono)
    fix a assume "a \<in> ?S"
    then have "0 < count_list xs a"
      by (simp add: count_list_0_iff zero_less_iff_neq_zero)
    then have "0 < ?p a" using N by simp
    then show "entr (?p a) \<le> ?p a * ln (real ?k) + (1 / real ?k - ?p a)"
      by (rule entr_gibbs [OF _ k])
  qed
  also have "\<dots> = sum ?p ?S * ln (real ?k) + (real ?k * (1 / real ?k) - sum ?p ?S)"
    by (simp add: sum.distrib sum_subtractf sum_distrib_right)
  also have "\<dots> = ln (real ?k)"
    using k assms by (simp add: total)
  finally have "sum (\<lambda>a. entr (?p a)) ?S / ln 10 \<le> ln (real ?k) / ln 10"
    by (simp add: divide_right_mono)
  then show ?thesis
    unfolding probs as_sum by (simp add: log_def)
qed

lemma log_10_2_bounds: "31 / 103 < log 10 (2::real) \<and> log 10 (2::real) < 28 / 93"
proof -
  have "(10::real) ^ 31 < 2 ^ 103" by simp
  then have "ln ((10::real) ^ 31) < ln ((2::real) ^ 103)"
    by (subst ln_less_cancel_iff) simp_all
  then have a: "31 * ln (10::real) < 103 * ln 2"
    by (simp only: ln_realpow of_nat_numeral)
  have "(2::real) ^ 93 < 10 ^ 28" by simp
  then have "ln ((2::real) ^ 93) < ln ((10::real) ^ 28)"
    by (subst ln_less_cancel_iff) simp_all
  then have b: "93 * ln (2::real) < 28 * ln 10"
    by (simp only: ln_realpow of_nat_numeral)
  have pos: "0 < ln (10::real)" by simp
  from a b pos show ?thesis
    by (simp add: log_def field_simps)
qed

subsection \<open>Rows of the example logs\<close>









subsection \<open>A log with no rows\<close>

text \<open>
  C1, as the specification states it: for every log with zero rows \<open>cf_entropy_seq\<close> fails
  with a division by zero. The code does not: with no symbol the counter is empty, the
  comprehension \<open>[count / total for count in freq.values()]\<close> evaluates no division, and
  the call returns. On the empty log with both columns:
\<close>

theorem empty_log_no_division_by_zero:
  "cf_entropy_seq empty_log True ''concept:name'' ''case:concept:name'' False
     = Inr (Entropy (et [] 10)) \<and>
   cf_entropy_seq empty_log True ''concept:name'' ''case:concept:name'' False
     \<noteq> Inl ZeroDivisionError"
  by (simp add: cf_entropy_seq_def empty_log_def iterrows_no_rows dict_values_def
      get_all_prefixes_Nil compute_entropy_no_symbols)

text \<open>
  C1, amended: for every log with zero rows \<open>cf_entropy_seq\<close> raises nothing, and no
  division by zero in particular: it returns the entropy that the library gives for the
  empty probability vector, with the sequence count 0 when the count is asked for.
\<close>

theorem cf_entropy_seq_no_rows:
  assumes "index log' = []"
  shows "cf_entropy_seq log' prefix activity_name case_id_name return_sequence_count =
           Inr (if return_sequence_count then EntropyWithCount (et [] 10) 0
                else Entropy (et [] 10))"
  using assms
  by (simp add: cf_entropy_seq_def iterrows_no_rows dict_values_def get_all_prefixes_Nil
      compute_entropy_no_symbols)

theorem cf_entropy_seq_no_rows_witness:
  "index empty_log = [] \<and>
   cf_entropy_seq empty_log False ''concept:name'' ''case:concept:name'' True
     = Inr (EntropyWithCount (et [] 10) 0)"
  using cf_entropy_seq_no_rows [of empty_log False "''concept:name''" "''case:concept:name''" True]
  by (simp add: empty_log_def)

text \<open>
  C10. For every log with zero rows \<open>cf_entropy_seq\<close> looks no column up: the loop runs over
  no row and leaves the dictionary empty, so no lookup failure is raised, whatever the
  column names and whether the table has such columns or not. A lookup failure needs a row.
\<close>

theorem no_rows_no_lookup:
  assumes "index log' = []"
  shows "iterrows log' = [] \<and>
         build_cases (iterrows log') activity_name case_id_name [] = Inr [] \<and>
         cf_entropy_seq log' prefix activity_name case_id_name return_sequence_count
           \<noteq> Inl (KeyError name)"
  using assms
  by (simp add: cf_entropy_seq_def iterrows_no_rows dict_values_def get_all_prefixes_Nil
      compute_entropy_no_symbols)

theorem no_rows_no_lookup_witness:
  "index empty_log_without_activity = [] \<and>
   ''concept:name'' \<notin> set (columns empty_log_without_activity) \<and>
   iterrows empty_log_without_activity = [] \<and>
   build_cases (iterrows empty_log_without_activity) ''concept:name'' ''case:concept:name'' []
     = Inr [] \<and>
   cf_entropy_seq empty_log_without_activity True ''concept:name'' ''case:concept:name'' False
     \<noteq> Inl (KeyError ''concept:name'')"
  using no_rows_no_lookup [of empty_log_without_activity "''concept:name''"
      "''case:concept:name''" True False "''concept:name''"]
  by (simp add: empty_log_without_activity_def columns_def)

subsection \<open>A missing column\<close>

text \<open>
  C2, as the specification states it: for every log that lacks the activity column or the
  case identifier column \<open>cf_entropy_seq\<close> raises a lookup failure. A log with no rows and
  no column \<open>nonexistent_col\<close> is such a log, and the call returns.
\<close>

theorem missing_column_without_rows_returns:
  "''nonexistent_col'' \<notin> set (columns empty_log_without_activity) \<and>
   cf_entropy_seq empty_log_without_activity True ''nonexistent_col'' ''case:concept:name'' False
     = Inr (Entropy (et [] 10))"
  by (simp add: cf_entropy_seq_def empty_log_without_activity_def columns_def
      iterrows_no_rows dict_values_def get_all_prefixes_Nil compute_entropy_no_symbols)

text \<open>
  C2, amended: for every log with at least one row that lacks the case identifier column
  or the activity column, \<open>cf_entropy_seq\<close> raises a lookup failure, at the first row and
  with nothing caught: for the case identifier column when that one is missing (it is
  looked up first), for the activity column otherwise.
\<close>

theorem missing_column_first_row:
  assumes "index log' \<noteq> []"
    and "case_id_name \<notin> set (columns log') \<or> activity_name \<notin> set (columns log')"
  shows "cf_entropy_seq log' prefix activity_name case_id_name return_sequence_count =
           Inl (KeyError (if case_id_name \<notin> set (columns log') then case_id_name
                          else activity_name))"
  unfolding cf_entropy_seq_def build_cases_missing_column [OF assms]
  by simp

theorem missing_column_first_row_witness:
  "index two_case_log \<noteq> [] \<and>
   ''nonexistent_col'' \<notin> set (columns two_case_log) \<and>
   cf_entropy_seq two_case_log True ''nonexistent_col'' ''case:concept:name'' False
     = Inl (KeyError ''nonexistent_col'')"
  using missing_column_first_row [of two_case_log "''case:concept:name''"
      "''nonexistent_col''" True False]
  by (simp add: two_case_log_def columns_def)

subsection \<open>The number of sequences\<close>




subsection \<open>The per-case sequences\<close>




subsection \<open>Equiprobable symbols and a single symbol\<close>

text \<open>
  C3. For every population in which each of the \<open>k\<close> distinct symbols occurs equally often,
  \<open>compute_entropy\<close> returns \<open>log10 k\<close>, and that is the largest entropy of any population
  with \<open>k\<close> distinct symbols. In particular the traces \<open>[x, x, x]\<close> and \<open>[y, y, y]\<close> give
  \<open>log10 2\<close>, about 0.301 and not 0: the witness below, on the sequences and on the log.
\<close>

theorem equiprobable_entropy:
  fixes sequences :: "'a list list"
  assumes "concat sequences \<noteq> []"
    and "\<forall>a\<in>set (concat sequences). count_list (concat sequences) a = n"
  shows "compute_entropy sequences = Inr (log 10 (real (card (set (concat sequences))))) \<and>
         (\<forall>(others :: 'b list list) h.
            concat others \<noteq> [] \<longrightarrow>
            card (set (concat others)) = card (set (concat sequences)) \<longrightarrow>
            compute_entropy others = Inr h \<longrightarrow>
            h \<le> log 10 (real (card (set (concat sequences)))))"
proof -
  have "compute_entropy sequences = Inr (log 10 (real (card (set (concat sequences)))))"
    unfolding compute_entropy_value
    by (simp only: entropy_of_uniform_counts [OF assms])
  moreover have "h \<le> log 10 (real (card (set (concat sequences))))"
    if "concat others \<noteq> []"
      and "card (set (concat others)) = card (set (concat sequences))"
      and "compute_entropy others = Inr h" for others :: "'b list list" and h
  proof -
    from that(3) have "h = et (map (\<lambda>count. real count / real (length (concat others)))
                                (dict_values (Counter (concat others)))) 10"
      unfolding compute_entropy_value by simp
    then show ?thesis
      using entropy_le_log_card [OF that(1)] by (simp only: that(2))
  qed
  ultimately show ?thesis by blast
qed

theorem equiprobable_entropy_witness:
  "concat [[Raw ''x'', Raw ''x'', Raw ''x''], [Raw ''y'', Raw ''y'', Raw ''y'']] \<noteq> [] \<and>
   count_list (concat [[Raw ''x'', Raw ''x'', Raw ''x''], [Raw ''y'', Raw ''y'', Raw ''y'']])
     (Raw ''x'') = 3 \<and>
   count_list (concat [[Raw ''x'', Raw ''x'', Raw ''x''], [Raw ''y'', Raw ''y'', Raw ''y'']])
     (Raw ''y'') = 3 \<and>
   compute_entropy [[Raw ''x'', Raw ''x'', Raw ''x''], [Raw ''y'', Raw ''y'', Raw ''y'']]
     = Inr (log 10 2) \<and>
   cf_entropy_seq two_case_log False ''concept:name'' ''case:concept:name'' False
     = Inr (Entropy (log 10 2)) \<and>
   31 / 103 < log 10 (2::real) \<and> log 10 (2::real) < 28 / 93"
proof -
  let ?seqs = "[[Raw ''x'', Raw ''x'', Raw ''x''], [Raw ''y'', Raw ''y'', Raw ''y'']]"
  have nonempty: "concat ?seqs \<noteq> []" by simp
  have counts: "\<forall>a\<in>set (concat ?seqs). count_list (concat ?seqs) a = 3" by simp
  have k: "card (set (concat ?seqs)) = 2" by simp
  have h: "compute_entropy ?seqs = Inr (log 10 2)"
    using equiprobable_entropy [OF nonempty counts, THEN conjunct1] unfolding k by simp
  have rows: "iterrows two_case_log =
      [(0, [(''case:concept:name'', Raw ''A''), (''concept:name'', Raw ''x'')]),
       (1, [(''case:concept:name'', Raw ''B''), (''concept:name'', Raw ''y'')]),
       (2, [(''case:concept:name'', Raw ''A''), (''concept:name'', Raw ''x'')]),
       (3, [(''case:concept:name'', Raw ''B''), (''concept:name'', Raw ''y'')]),
       (4, [(''case:concept:name'', Raw ''A''), (''concept:name'', Raw ''x'')]),
       (5, [(''case:concept:name'', Raw ''B''), (''concept:name'', Raw ''y'')])]"
    by (simp add: iterrows_def two_case_log_def row_at_def values_dtype_def
        upt_rec [of 0] upt_rec [of "Suc _"])
  have built: "build_cases (iterrows two_case_log) ''concept:name'' ''case:concept:name'' []
     = Inr [(Raw ''A'', [Raw ''x'', Raw ''x'', Raw ''x'']),
            (Raw ''B'', [Raw ''y'', Raw ''y'', Raw ''y''])]"
    unfolding rows by (simp add: series_getitem_def dict_contains_def)
  have log': "cf_entropy_seq two_case_log False ''concept:name'' ''case:concept:name'' False
     = Inr (Entropy (log 10 2))"
    unfolding cf_entropy_seq_def built by (simp add: dict_values_def h)
  from nonempty h log' log_10_2_bounds show ?thesis by simp
qed

text \<open>
  C4. For every collection of sequences whose flattened population is not empty and has
  exactly one distinct symbol, \<open>compute_entropy\<close> returns 0.
\<close>

theorem single_symbol_entropy:
  assumes "set (concat sequences) = {a}"
  shows "compute_entropy sequences = Inr 0"
  unfolding compute_entropy_value
  by (simp only: entropy_of_single_symbol [OF assms])

theorem single_symbol_entropy_witness:
  "set (concat [[Raw ''x'', Raw ''x''], [], [Raw ''x'']]) = {Raw ''x''} \<and>
   compute_entropy [[Raw ''x'', Raw ''x''], [], [Raw ''x'']] = Inr 0"
proof -
  have one: "set (concat [[Raw ''x'', Raw ''x''], [], [Raw ''x'']]) = {Raw ''x''}" by simp
  from single_symbol_entropy [OF one] one show ?thesis by blast
qed

subsection \<open>Cleaning a log\<close>

lemma to_datetime_gives_datetime:
  "to_datetime parser col = Inr c \<Longrightarrow> dtype_of c = Datetime64"
  by (cases col) (auto simp add: to_datetime_def split: sum.splits)


lemma to_datetime_of_datetime:
  "dtype_of col = Datetime64 \<Longrightarrow> to_datetime parser col = Inr col"
  by (cases col) (simp_all add: to_datetime_def)




lemma unique_column:
  assumes "count_list (columns df) col \<le> 1" and "(col, c) \<in> set (data df)"
    and "(col, c') \<in> set (data df)"
  shows "c' = c"
proof -
  have "count_list (map fst d) col \<le> 1 \<Longrightarrow> (col, c) \<in> set d \<Longrightarrow> (col, c') \<in> set d \<Longrightarrow> c' = c"
    for d :: "(string \<times> column) list"
    by (induction d) (auto simp add: count_list_0_iff image_iff split: if_splits)
  with assms show ?thesis
    by (simp add: columns_def)
qed


lemma parse_column_result:
  assumes "parse_column parser df col = Inr df'"
  shows "columns df' = columns df" and "index df' = index df"
    and "count_list (columns df') col \<le> 1"
    and "(col, c) \<in> set (data df') \<Longrightarrow> dtype_of c = Datetime64"
    and "other \<noteq> col \<Longrightarrow> (other, c) \<in> set (data df') \<longleftrightarrow> (other, c) \<in> set (data df)"
proof -
  from assms have small: "\<not> 1 < count_list (columns df) col"
    by (auto simp add: parse_column_def split: if_splits)
  with assms obtain series p where "to_datetime parser series = Inr p"
    and df': "df' = df\<lparr>data := map (\<lambda>(label, c). if label = col then (label, p) else (label, c))
                                  (data df)\<rparr>"
    by (auto simp add: parse_column_def split: option.splits sum.splits)
  then have p: "dtype_of p = Datetime64"
    by (simp add: to_datetime_gives_datetime)
  show cols: "columns df' = columns df"
    unfolding df' columns_def by (auto simp add: case_prod_beta)
  show "index df' = index df"
    unfolding df' by simp
  show "count_list (columns df') col \<le> 1"
    using small unfolding cols by simp
  show "dtype_of c = Datetime64" if "(col, c) \<in> set (data df')"
    using that p unfolding df' by (auto split: if_splits)
  show "(other, c) \<in> set (data df') \<longleftrightarrow> (other, c) \<in> set (data df)" if "other \<noteq> col"
    using that unfolding df' by (auto split: if_splits) force
qed


lemma parse_column_again:
  assumes "count_list (columns df) col \<le> 1" and "col \<in> set (columns df)"
    and "\<And>c. (col, c) \<in> set (data df) \<Longrightarrow> dtype_of c = Datetime64"
  shows "parse_column parser df col = Inr df"
proof -
  from assms(2) obtain c where c: "map_of (data df) col = Some c"
    by (rule column_found)
  then have "(col, c) \<in> set (data df)"
    by (rule map_of_SomeD)
  have same: "map (\<lambda>(label, x). if label = col then (label, c) else (label, x)) (data df) = data df"
  proof (rule map_idI)
    fix lx assume lx: "lx \<in> set (data df)"
    obtain l x where eq: "lx = (l, x)" by (cases lx)
    have "x = c" if "l = col"
      using that lx eq unique_column [OF assms(1) \<open>(col, c) \<in> set (data df)\<close>, of x] by simp
    then show "(case lx of (label, x) \<Rightarrow> if label = col then (label, c) else (label, x)) = lx"
      by (auto simp add: eq)
  qed
  from \<open>(col, c) \<in> set (data df)\<close> have "to_datetime parser c = Inr c"
    by (simp add: assms(3) to_datetime_of_datetime)
  then show ?thesis
    using assms(1) c by (simp add: parse_column_def same)
qed


lemma parse_timestamps_result:
  assumes "parse_timestamps parser cols df = Inr df'"
  shows "columns df' = columns df \<and> index df' = index df \<and>
         (\<forall>col\<in>set cols. count_list (columns df') col \<le> 1 \<and>
            (\<forall>c. (col, c) \<in> set (data df') \<longrightarrow> dtype_of c = Datetime64))"
  using assms
proof (induction cols arbitrary: df)
  case Nil
  then show ?case by simp
next
  case (Cons col cols)
  show ?case
  proof (cases "col \<in> set (columns df)")
    case False
    with Cons.prems have rest: "parse_timestamps parser cols df = Inr df'" by simp
    note ih = Cons.IH [OF rest]
    from False ih have "col \<notin> set (columns df')" by simp
    then have "count_list (columns df') col \<le> 1" "\<And>c. (col, c) \<notin> set (data df')"
      by (auto simp add: columns_def image_iff)
    with ih show ?thesis by auto
  next
    case True
    with Cons.prems obtain df1 where one: "parse_column parser df col = Inr df1"
      and rest: "parse_timestamps parser cols df1 = Inr df'"
      by (auto split: sum.splits)
    note r = parse_column_result [OF one]
    note ih = Cons.IH [OF rest]
    have count: "count_list (columns df') col \<le> 1"
      using ih r(1,3) by simp
    have dt: "dtype_of c = Datetime64" if c: "(col, c) \<in> set (data df')" for c
    proof (cases "col \<in> set cols")
      case True
      with ih c show ?thesis by blast
    next
      case False
      have "(col, c) \<in> set (data df1)"
        using rest c False
      proof (induction cols arbitrary: df1)
        case Nil
        then show ?case by simp
      next
        case (Cons a cols)
        then have neq: "a \<noteq> col" by auto
        show ?case
        proof (cases "a \<in> set (columns df1)")
          case False
          with Cons show ?thesis by simp
        next
          case True
          with Cons.prems(1) obtain df2 where two: "parse_column parser df1 a = Inr df2"
            and more: "parse_timestamps parser cols df2 = Inr df'"
            by (auto split: sum.splits)
          from Cons.IH [OF more Cons.prems(2)] Cons.prems(3) have "(col, c) \<in> set (data df2)"
            by simp
          with parse_column_result(5) [OF two, of col c] neq show ?thesis by simp
        qed
      qed
      then show ?thesis by (rule r(4))
    qed
    from ih r(1,2) count dt show ?thesis by auto
  qed
qed


lemma parse_timestamps_again:
  assumes "\<forall>col\<in>set cols. count_list (columns df) col \<le> 1 \<and>
             (\<forall>c. (col, c) \<in> set (data df) \<longrightarrow> dtype_of c = Datetime64)"
  shows "parse_timestamps parser cols df = Inr df"
  using assms by (induction cols) (simp_all add: parse_column_again)


lemma columns_reset_index [simp]: "columns (reset_index df) = columns df"
  by (simp add: reset_index_def columns_def)

lemma data_reset_index [simp]: "data (reset_index df) = data df"
  by (simp add: reset_index_def)

lemma reset_index_again: "reset_index (reset_index df) = reset_index df"
  by (simp add: reset_index_def)

lemma convert_and_clean_returns:
  assumes "convert_and_clean convert_log parser df = Inr df'"
  obtains df2 df3
  where "parse_timestamps parser [''start:timestamp'', ''time:timestamp''] df2 = Inr df3"
    and "df' = reset_index df3"
  using assms unfolding convert_and_clean_def
  by (auto split: if_splits sum.splits simp del: parse_timestamps.simps)


text \<open>
  A second pass over a result that has no lifecycle column changes nothing: its timestamp
  columns are \<open>datetime64\<close> and are returned as they are, and its rows are numbered already.
\<close>

lemma second_pass_without_lifecycle:
  assumes "convert_and_clean convert_log parser df = Inr df'"
    and "''lifecycle:transition'' \<notin> set (columns df')"
  shows "convert_and_clean convert_log parser df' = Inr df'"
proof -
  let ?cols = "[''start:timestamp'', ''time:timestamp'']"
  from assms(1) obtain df2 df3
    where parse: "parse_timestamps parser ?cols df2 = Inr df3"
      and df': "df' = reset_index df3"
    by (rule convert_and_clean_returns)
  note r = parse_timestamps_result [OF parse]
  have "\<forall>col\<in>set ?cols. count_list (columns df') col \<le> 1 \<and>
          (\<forall>c. (col, c) \<in> set (data df') \<longrightarrow> dtype_of c = Datetime64)"
    using r unfolding df' by auto
  then have "parse_timestamps parser ?cols df' = Inr df'"
    by (rule parse_timestamps_again)
  moreover have "reset_index df' = df'"
    unfolding df' by (rule reset_index_again)
  ultimately show ?thesis
    using assms(2)
    by (simp add: convert_and_clean_def del: parse_timestamps.simps)
qed





end
